theory Spec2Isabelle
  imports Complex_Main "HOL-Library.Char_ord" "HOL-Library.List_Lexorder"
begin

section \<open>Guide frame movie: the frame list and its padding\<close>

text \<open>
  The development follows \<^verbatim>\<open>src/guide_movie/gf_movie.py\<close>. Python exceptions are
  values of \<open>exn\<close>; a function that can raise returns \<open>exn + 'a\<close> with \<open>Inl\<close> the
  exception that leaves it.
\<close>

datatype exn =
    KeyError
  | IndexError
  | ValueError
  | TypeError
  | ZeroDivisionError
  | AttributeError
  | InvalidTransformError
  | FileNotFoundError

subsection \<open>The sequence padder (\<^verbatim>\<open>make_gif\<close>, lines 82 to 93)\<close>

definition start_frames :: nat where
  "start_frames = 5"

text \<open>\<^verbatim>\<open>np.insert(arr, i, v)\<close> for \<open>0 \<le> i \<le> len(arr)\<close>: a new array with \<open>v\<close> before
  position \<open>i\<close>.\<close>

definition np_insert :: "'a list \<Rightarrow> nat \<Rightarrow> 'a \<Rightarrow> 'a list" where
  "np_insert arr i v = take i arr @ v # drop i arr"

text \<open>
  The inner loop \<^verbatim>\<open>while c < copies\<close>, started by the outer loop with \<open>c = 1\<close>. It
  returns the array and the index \<open>i\<close> it leaves behind. \<^verbatim>\<open>fits_files[i]\<close> raises
  IndexError when \<open>i\<close> is beyond the array (\<open>i\<close> is never negative).
\<close>

function inner_loop :: "'a list \<Rightarrow> nat \<Rightarrow> int \<Rightarrow> int \<Rightarrow> exn + ('a list \<times> nat)" where
  "inner_loop fits_files i c copies =
     (if c < copies then
        (if i < length fits_files
         then inner_loop (np_insert fits_files i (fits_files ! i)) (i + 1) (c + 1) copies
         else Inl IndexError)
      else Inr (fits_files, i))"
  by pat_completeness auto
termination
  by (relation "measure (\<lambda>(fits_files, i, c, copies). nat (copies - c))") auto

lemma inner_loop_index_mono:
  "inner_loop fits_files i c copies = Inr (fs', i') \<Longrightarrow> i \<le> i'"
proof (induction fits_files i c copies rule: inner_loop.induct)
  case (1 fits_files i c copies)
  show ?case
  proof (cases "c < copies")
    case True
    with "1.prems" have inb: "i < length fits_files"
      by (simp split: if_splits)
    with True "1.prems" have
      "inner_loop (np_insert fits_files i (fits_files ! i)) (i + 1) (c + 1) copies = Inr (fs', i')"
      by simp
    with "1.IH" [OF True inb] show ?thesis by simp
  next
    case False
    with "1.prems" show ?thesis by simp
  qed
qed

text \<open>The outer loop \<^verbatim>\<open>while i < start_frames * copies\<close>.\<close>

function outer_loop :: "'a list \<Rightarrow> nat \<Rightarrow> int \<Rightarrow> exn + 'a list" where
  "outer_loop fits_files i copies =
     (if int i < int start_frames * copies then
        (case inner_loop fits_files i 1 copies of
           Inl e \<Rightarrow> Inl e
         | Inr (fits_files', i') \<Rightarrow> outer_loop fits_files' (i' + 1) copies)
      else Inr fits_files)"
  by pat_completeness auto
termination
proof (relation "measure (\<lambda>(fits_files, i, copies). nat (int start_frames * copies - int i))")
  show "wf (measure (\<lambda>(fits_files, i, copies). nat (int start_frames * copies - int i)))"
    by simp
next
  fix fits_files :: "'a list" and i :: nat and copies :: int and x2 x y
  assume a: "int i < int start_frames * copies"
    and b: "inner_loop fits_files i 1 copies = Inr x2"
    and c: "(x, y) = x2"
  from b c have "inner_loop fits_files i 1 copies = Inr (x, y)" by simp
  then have "i \<le> y" by (rule inner_loop_index_mono)
  with a show "((x, y + 1, copies), fits_files, i, copies)
      \<in> measure (\<lambda>(fits_files, i, copies). nat (int start_frames * copies - int i))"
    by simp
qed

text \<open>
  The guard of line 84, \<^verbatim>\<open>init_fr and init_fr > fr and len(fits_files) > start_frames\<close>.
  The intervals are Python integers, as the defaults of \<^verbatim>\<open>make_gif\<close> are; an unset
  intro interval is \<open>None\<close>, and \<open>0\<close> is falsy as well.
\<close>

fun pad_guard :: "int option \<Rightarrow> int \<Rightarrow> nat \<Rightarrow> bool" where
  "pad_guard None fr n = False"
| "pad_guard (Some init_fr) fr n = (init_fr \<noteq> 0 \<and> init_fr > fr \<and> n > start_frames)"

text \<open>
  Lines 82 to 93: the padded list and the value of \<^verbatim>\<open>copies\<close>. \<^verbatim>\<open>init_fr // fr\<close> is
  floor division and raises ZeroDivisionError when \<open>fr = 0\<close>.
\<close>

fun pad_frames :: "'a list \<Rightarrow> int \<Rightarrow> int option \<Rightarrow> exn + ('a list \<times> int)" where
  "pad_frames fits_files fr None = Inr (fits_files, 1)"
| "pad_frames fits_files fr (Some init_fr) =
     (if pad_guard (Some init_fr) fr (length fits_files) then
        (if fr = 0 then Inl ZeroDivisionError
         else (case outer_loop fits_files 0 (init_fr div fr) of
                 Inl e \<Rightarrow> Inl e
               | Inr fits_files' \<Rightarrow> Inr (fits_files', init_fr div fr)))
      else Inr (fits_files, 1))"

text \<open>The total of the title, line 192: \<^verbatim>\<open>int(len(fits_files)-(copies-1)*start_frames)\<close>.\<close>

definition title_total :: "'a list \<Rightarrow> int \<Rightarrow> int" where
  "title_total fits_files copies = int (length fits_files) - (copies - 1) * int start_frames"

text \<open>Python truthiness of the intro interval: \<open>None\<close> and \<open>0\<close> are falsy.\<close>

definition falsy :: "int option \<Rightarrow> bool" where
  "falsy v = (v = None \<or> v = Some 0)"

section \<open>Headers, HDU lists and the steps of the frame renderer\<close>

text \<open>
  Steps that can raise are chained with \<open>exn_bind\<close>: the first exception ends the chain.
  A \<^verbatim>\<open>try\<close> block with a single \<^verbatim>\<open>except KeyError\<close> (or \<^verbatim>\<open>except ValueError\<close>) clause
  runs its handler for that exception only; any other exception, and any exception of the
  handler, leaves the block.
\<close>

definition exn_bind :: "exn + 'a \<Rightarrow> ('a \<Rightarrow> exn + 'b) \<Rightarrow> exn + 'b" where
  "exn_bind m f = (case m of Inl e \<Rightarrow> Inl e | Inr x \<Rightarrow> f x)"

fun except_KeyError :: "exn + 'a \<Rightarrow> exn + 'a \<Rightarrow> exn + 'a" where
  "except_KeyError (Inl KeyError) handler = handler"
| "except_KeyError body handler = body"

fun except_ValueError :: "exn + 'a \<Rightarrow> exn + 'a \<Rightarrow> exn + 'a" where
  "except_ValueError (Inl ValueError) handler = handler"
| "except_ValueError body handler = body"

text \<open>
  The value of a header keyword is a string or a number; numbers are exact rationals, which
  stand for the integers and floats of a FITS header. A header maps keywords to values. An
  HDU has a name, a header and a 2-D image, held as the list of its rows.
\<close>

datatype card = Str string | Num rat

type_synonym header = "string \<rightharpoonup> card"

type_synonym image = "int list list"

record hdu =
  name :: string
  header :: header
  data :: image

text \<open>
  \<^verbatim>\<open>header[key]\<close> raises KeyError for a missing keyword. \<^verbatim>\<open>hdul[name]\<close> is the first HDU
  of that name and raises KeyError when there is none; \<^verbatim>\<open>hdul[k]\<close> raises IndexError beyond
  the list. \<^verbatim>\<open>fits.open(path)\<close> reads the HDU list of a file from the store of files.
\<close>

definition header_get :: "header \<Rightarrow> string \<Rightarrow> exn + card" where
  "header_get h k = (case h k of None \<Rightarrow> Inl KeyError | Some v \<Rightarrow> Inr v)"

definition hdul_named :: "hdu list \<Rightarrow> string \<Rightarrow> exn + hdu" where
  "hdul_named hdul key =
     (case find (\<lambda>h. name h = key) hdul of None \<Rightarrow> Inl KeyError | Some h \<Rightarrow> Inr h)"

definition hdul_index :: "hdu list \<Rightarrow> nat \<Rightarrow> exn + hdu" where
  "hdul_index hdul k = (if k < length hdul then Inr (hdul ! k) else Inl IndexError)"

definition fits_open :: "(string \<rightharpoonup> hdu list) \<Rightarrow> string \<Rightarrow> exn + hdu list" where
  "fits_open store path = (case store path of None \<Rightarrow> Inl FileNotFoundError | Some hdul \<Rightarrow> Inr hdul)"

text \<open>
  Lines 137 to 146 (and 97 to 103 for the header of the first frame): the \<open>SCI\<close>
  extension, on KeyError the \<open>COMPRESSED_IMAGE\<close> extension, on KeyError the HDU at index 0.
\<close>

definition select_hdu :: "hdu list \<Rightarrow> exn + hdu" where
  "select_hdu hdul =
     except_KeyError (hdul_named hdul ''SCI'')
       (except_KeyError (hdul_named hdul ''COMPRESSED_IMAGE'')
          (hdul_index hdul 0))"

text \<open>
  Lines 147 to 153, the crop to the center. \<^verbatim>\<open>int(n/2.5)\<close> for a dimension \<open>n\<close> is the
  floor of \<open>2n/5\<close>: the float quotient is correctly rounded, and \<open>2n/5\<close> is an integer or
  at least \<open>1/5\<close> away from one. \<^verbatim>\<open>data[k:-k]\<close> keeps the indices from \<open>k\<close> up to the length
  less \<open>k\<close> when \<open>k > 0\<close>, and nothing when \<open>k = 0\<close>, since \<open>-0\<close> is \<open>0\<close>. Subtracting from
  a header value that is a string raises TypeError.
\<close>

definition shape :: "image \<Rightarrow> nat \<times> nat" where
  "shape d = (length d, (case d of [] \<Rightarrow> 0 | r # _ \<Rightarrow> length r))"

definition int_div_2_5 :: "nat \<Rightarrow> nat" where
  "int_div_2_5 n = (2 * n) div 5"

definition slice_both :: "nat \<Rightarrow> 'a list \<Rightarrow> 'a list" where
  "slice_both k xs = (if k = 0 then [] else drop k (take (length xs - k) xs))"

definition num_sub :: "card \<Rightarrow> nat \<Rightarrow> exn + card" where
  "num_sub v k = (case v of Num q \<Rightarrow> Inr (Num (q - of_nat k)) | Str s \<Rightarrow> Inl TypeError)"

definition center_crop :: "header \<Rightarrow> image \<Rightarrow> exn + header \<times> image" where
  "center_crop header_n d =
     (let x_frac = int_div_2_5 (fst (shape d));
          y_frac = int_div_2_5 (snd (shape d));
          d' = map (slice_both y_frac) (slice_both x_frac d)
      in exn_bind (header_get header_n ''CRPIX1'') (\<lambda>c1.
         exn_bind (num_sub c1 x_frac) (\<lambda>c1'.
         exn_bind (header_get (header_n(''CRPIX1'' \<mapsto> c1')) ''CRPIX2'') (\<lambda>c2.
         exn_bind (num_sub c2 y_frac) (\<lambda>c2'.
         Inr (header_n(''CRPIX1'' \<mapsto> c1', ''CRPIX2'' \<mapsto> c2'), d'))))))"

text \<open>
  Lines 158 to 165, the observation timestamp. \<^verbatim>\<open>datetime.strptime\<close> is a parameter
  \<open>strptime\<close> that takes the string and the format and returns \<open>None\<close> where Python raises
  ValueError; called on a number it raises TypeError.
\<close>

definition date_obs_of :: "header \<Rightarrow> exn + card" where
  "date_obs_of header_n =
     except_KeyError (header_get header_n ''DATE-OBS'') (header_get header_n ''DATE_OBS'')"

definition py_strptime :: "(string \<Rightarrow> string \<Rightarrow> 'dt option) \<Rightarrow> card \<Rightarrow> string \<Rightarrow> exn + 'dt" where
  "py_strptime strptime v fmt =
     (case v of
        Num q \<Rightarrow> Inl TypeError
      | Str s \<Rightarrow> (case strptime s fmt of None \<Rightarrow> Inl ValueError | Some d \<Rightarrow> Inr d))"

definition parse_date :: "(string \<Rightarrow> string \<Rightarrow> 'dt option) \<Rightarrow> card \<Rightarrow> exn + 'dt" where
  "parse_date strptime date_obs =
     except_ValueError (py_strptime strptime date_obs ''%Y-%m-%dT%H:%M:%S.%f'')
       (py_strptime strptime date_obs ''%Y-%m-%dT%H:%M:%S'')"

definition observation_date :: "(string \<Rightarrow> string \<Rightarrow> 'dt option) \<Rightarrow> header \<Rightarrow> exn + 'dt" where
  "observation_date strptime header_n = exn_bind (date_obs_of header_n) (parse_date strptime)"

text \<open>
  Lines 171 to 189, the coordinate overlay. What the statements of lines 173 to 187 do is
  up to the libraries and is a parameter \<open>wcs_axes\<close>: \<open>None\<close> when they all complete, and
  then the grid is drawn, or the exception that one of them raises. The handler of line 188
  catches InvalidTransformError and AttributeError and passes.
\<close>

definition coordinate_grid :: "(header \<Rightarrow> exn option) \<Rightarrow> header \<Rightarrow> exn + bool" where
  "coordinate_grid wcs_axes header_n =
     (case wcs_axes header_n of
        None \<Rightarrow> Inr True
      | Some e \<Rightarrow> if e = InvalidTransformError \<or> e = AttributeError then Inr False else Inl e)"

section \<open>The progress reporter\<close>

text \<open>
  \<^verbatim>\<open>'{0:.df}'.format(x)\<close> in exact arithmetic: \<open>x\<close> rounded to \<open>d\<close> decimals, a tie going to
  the even neighbour, as Python rounds the exact value of a float. The model computes with
  rationals where Python computes with floats; the two agree whenever the float operations
  are exact, as they are for \<open>100 * (50 / 100.0)\<close>.
\<close>

definition digit_char :: "nat \<Rightarrow> char" where
  "digit_char d = ''0123456789'' ! d"

function digits_of :: "nat \<Rightarrow> string" where
  "digits_of n = (if n < 10 then [digit_char n] else digits_of (n div 10) @ [digit_char (n mod 10)])"
  by pat_completeness auto
termination
  by (relation "measure (\<lambda>n. n)") auto

definition round_half_even :: "rat \<Rightarrow> int" where
  "round_half_even q =
     (let f = \<lfloor>q\<rfloor>; r = q - of_int f
      in if r < 1 / 2 then f else if 1 / 2 < r then f + 1 else if even f then f else f + 1)"

definition format_fixed :: "nat \<Rightarrow> rat \<Rightarrow> string" where
  "format_fixed decimals q =
     (let s = nat (round_half_even (\<bar>q\<bar> * 10 ^ decimals));
          fs = digits_of (s mod 10 ^ decimals)
      in (if q < 0 then ''-'' else '''') @ digits_of (s div 10 ^ decimals) @
         (if decimals = 0 then ''''
          else ''.'' @ replicate (decimals - length fs) (CHR ''0'') @ fs))"

text \<open>
  Lines 43 to 63. The argument \<open>time_in\<close> of the model is \<open>None\<close> when no start time is
  given and otherwise holds \<^verbatim>\<open>delta_t\<close>, the seconds from the start time to the clock
  reading of line 47. The result is the text written to the terminal, a carriage return
  being \<open>CR\<close> and the newline of the last \<^verbatim>\<open>print()\<close> being \<open>LF\<close>; text is a list of bytes.
  The division of line 43 raises ZeroDivisionError when \<open>total\<close> is 0 and that of line 50
  when \<open>iteration\<close> is 0. The name \<open>total\<close> is taken in HOL, hence \<open>total'\<close>, and \<open>length\<close>
  is \<open>bar_length\<close>.
\<close>

definition CR :: char where "CR = CHR 0x0D"
definition LF :: char where "LF = CHR 0x0A"

definition time_left_text :: "rat \<Rightarrow> string" where
  "time_left_text total_time =
     (if total_time > 90 then ''| '' @ format_fixed 1 (total_time / 60) @ '' min remaining |''
      else if total_time > 5400 then ''| '' @ format_fixed 1 (total_time / 60 / 60) @ '' hrs remaining |''
      else ''| '' @ format_fixed 1 total_time @ '' sec remaining |'')"

definition print_progress_bar ::
  "int \<Rightarrow> int \<Rightarrow> string \<Rightarrow> string \<Rightarrow> nat \<Rightarrow> int \<Rightarrow> string \<Rightarrow> rat option \<Rightarrow> exn + string" where
  "print_progress_bar iteration total' prefix suffix decimals bar_length fill time_in =
     (if total' = 0 then Inl ZeroDivisionError
      else
        let percent = format_fixed decimals (100 * (of_int iteration / of_int total'));
            filled_length = (bar_length * iteration) div total';
            bar = concat (replicate (nat filled_length) fill) @
                  replicate (nat (bar_length - filled_length)) (CHR ''-'')
        in exn_bind
             (case time_in of
                None \<Rightarrow> Inr '' ''
              | Some delta_t \<Rightarrow>
                  if iteration = 0 then Inl ZeroDivisionError
                  else Inr (time_left_text
                             (delta_t / of_int iteration * (of_int total' - of_int iteration))))
             (\<lambda>time_left.
                Inr ([CR] @ prefix @ '' |'' @ bar @ ''| '' @ percent @ ''%'' @ time_left @ suffix @
                     [CR] @ (if iteration = total' then [LF] else []))))"

section \<open>The frame renderer and the animation\<close>

text \<open>
  Lines 200 to 204, the reticle: two circles about \<open>(CRPIX1, CRPIX2)\<close> with radii
  \<open>5/PIXSCALE\<close> and \<open>15/PIXSCALE\<close>.
\<close>

record circle =
  xy :: "card \<times> card"
  radius :: rat

definition py_div :: "rat \<Rightarrow> card \<Rightarrow> exn + rat" where
  "py_div a v =
     (case v of
        Str s \<Rightarrow> Inl TypeError
      | Num q \<Rightarrow> if q = 0 then Inl ZeroDivisionError else Inr (a / q))"

definition reticle :: "header \<Rightarrow> exn + circle list" where
  "reticle header_n =
     exn_bind (header_get header_n ''CRPIX1'') (\<lambda>x.
     exn_bind (header_get header_n ''CRPIX2'') (\<lambda>y.
     exn_bind (header_get header_n ''PIXSCALE'') (\<lambda>s.
     exn_bind (py_div 5 s) (\<lambda>r5.
     exn_bind (py_div 15 s) (\<lambda>r15.
     Inr [\<lparr>xy = (x, y), radius = r5\<rparr>, \<lparr>xy = (x, y), radius = r15\<rparr>])))))"

text \<open>
  The default fill character of the progress bar, the full block U+2588, in UTF-8.
\<close>

definition fill_default :: string where
  "fill_default = [CHR 0xE2, CHR 0x96, CHR 0x88]"

text \<open>
  The calls into the libraries whose results the model does not compute: the timestamp
  parser, the display limits of \<^verbatim>\<open>ZScaleInterval().get_limits\<close> (line 170) and the outcome of
  the overlay block. \<open>'dt\<close> is the type of a parsed timestamp.
\<close>

record 'dt library =
  strptime :: "string \<Rightarrow> string \<Rightarrow> 'dt option"
  zscale :: "image \<Rightarrow> exn + rat \<times> rat"
  wcs_axes :: "header \<Rightarrow> exn option"

text \<open>
  What one call of \<^verbatim>\<open>update\<close> draws and prints: the image shown and its limits, the date,
  \<open>K\<close> and \<open>N\<close> of the title \<open>(K of N)\<close>, whether the coordinate grid is drawn, the reticle
  circles, and the text of the progress bar.
\<close>

record 'dt plot =
  shown :: image
  norm_limits :: "rat \<times> rat"
  title_date :: 'dt
  title_count :: nat
  title_of :: int
  grid :: bool
  circles :: "circle list"
  printed :: string

text \<open>
  Lines 136 to 153: the header and the image with which the rest of \<^verbatim>\<open>update\<close> works.
\<close>

definition frame_input :: "(string \<rightharpoonup> hdu list) \<Rightarrow> string \<Rightarrow> bool \<Rightarrow> exn + header \<times> image" where
  "frame_input store path center =
     exn_bind (fits_open store path) (\<lambda>hdul.
     exn_bind (select_hdu hdul) (\<lambda>h.
     if center then center_crop (header h) (data h) else Inr (header h, data h)))"

text \<open>
  Lines 129 to 208, \<^verbatim>\<open>update(n)\<close>, with the variables it takes from \<^verbatim>\<open>make_gif\<close> as
  arguments; \<open>delta_t\<close> is the time since \<^verbatim>\<open>time_in\<close> at this call.
\<close>

definition update ::
  "'dt library \<Rightarrow> (string \<rightharpoonup> hdu list) \<Rightarrow> string list \<Rightarrow> int \<Rightarrow> int \<Rightarrow> int option \<Rightarrow>
   bool \<Rightarrow> bool \<Rightarrow> bool \<Rightarrow> rat \<Rightarrow> nat \<Rightarrow> exn + 'dt plot" where
  "update lib store fits_files copies fr init_fr tr center progress delta_t n =
     (if n < length fits_files then
        exn_bind (frame_input store (fits_files ! n) center) (\<lambda>(header_n, d).
        exn_bind (observation_date (strptime lib) header_n) (\<lambda>date.
        exn_bind (zscale lib d) (\<lambda>z_interval.
        exn_bind (coordinate_grid (wcs_axes lib) header_n) (\<lambda>g.
        let current_count = length (remdups (take (n + 1) fits_files)) in
        exn_bind (if (current_count < 6 \<and> Some fr \<noteq> init_fr) \<and> tr then reticle header_n else Inr [])
          (\<lambda>cs.
        exn_bind (if progress
                  then print_progress_bar (int n + 1) (int (length fits_files))
                         (''Creating Gif: Frame '' @ digits_of current_count) '''' 1 100
                         fill_default (Some delta_t)
                  else Inr '''') (\<lambda>out.
        Inr \<lparr>shown = d, norm_limits = z_interval, title_date = date,
             title_count = current_count, title_of = title_total fits_files copies,
             grid = g, circles = cs, printed = out\<rparr>))))))
      else Inl IndexError)"

text \<open>
  \<^verbatim>\<open>os.path.dirname\<close> and \<^verbatim>\<open>os.path.join\<close> (of two components) on POSIX paths, and the
  string methods \<^verbatim>\<open>lstrip\<close>, \<^verbatim>\<open>replace\<close> (of one character by another) and \<^verbatim>\<open>upper\<close>; called
  on a number, a string method raises AttributeError.
\<close>

definition posix_dirname :: "string \<Rightarrow> string" where
  "posix_dirname p =
     (let head = rev (dropWhile (\<lambda>c. c \<noteq> CHR ''/'') (rev p))
      in if head \<noteq> [] \<and> \<not> list_all (\<lambda>c. c = CHR ''/'') head
         then rev (dropWhile (\<lambda>c. c = CHR ''/'') (rev head))
         else head)"

definition posix_join :: "string \<Rightarrow> string \<Rightarrow> string" where
  "posix_join a b =
     (if take 1 b = ''/'' then b
      else if a = [] \<or> last a = CHR ''/'' then a @ b
      else a @ ''/'' @ b)"

definition lstrip :: "char \<Rightarrow> string \<Rightarrow> string" where
  "lstrip ch s = dropWhile (\<lambda>c. c = ch) s"

definition replace_char :: "char \<Rightarrow> char \<Rightarrow> string \<Rightarrow> string" where
  "replace_char old new s = map (\<lambda>c. if c = old then new else c) s"

definition upper_char :: "char \<Rightarrow> char" where
  "upper_char c =
     (if CHR ''a'' \<le> c \<and> c \<le> CHR ''z'' then char_of (of_char c - (32::nat)) else c)"

definition str_lstrip :: "char \<Rightarrow> card \<Rightarrow> exn + string" where
  "str_lstrip ch v = (case v of Str s \<Rightarrow> Inr (lstrip ch s) | Num q \<Rightarrow> Inl AttributeError)"

definition str_upper :: "card \<Rightarrow> exn + string" where
  "str_upper v = (case v of Str s \<Rightarrow> Inr (map upper_char s) | Num q \<Rightarrow> Inl AttributeError)"

definition sanitize :: "card \<Rightarrow> exn + string" where
  "sanitize obj =
     (case obj of
        Str s \<Rightarrow> Inr (replace_char (CHR ''/'') (CHR ''_'') (replace_char (CHR '' '') (CHR ''_'') s))
      | Num q \<Rightarrow> Inl AttributeError)"

text \<open>
  Lines 105 to 117: the object, and the request number without leading zeros or
  \<open>UNKNOWN\<close>; the site and the instrument are computed and not used. Line 216: the path
  of the movie.
\<close>

definition first_header :: "header \<Rightarrow> exn + card \<times> string" where
  "first_header h =
     exn_bind (header_get h ''OBJECT'') (\<lambda>obj.
     exn_bind (except_KeyError (exn_bind (header_get h ''REQNUM'') (str_lstrip (CHR ''0'')))
                 (Inr ''UNKNOWN'')) (\<lambda>rn.
     exn_bind (except_KeyError (exn_bind (header_get h ''SITEID'') str_upper) (Inr '' '')) (\<lambda>site.
     exn_bind (except_KeyError (exn_bind (header_get h ''INSTRUME'') str_upper) (Inr '' '')) (\<lambda>inst.
     Inr (obj, rn)))))"

definition savefile_of :: "string \<Rightarrow> card \<Rightarrow> string \<Rightarrow> exn + string" where
  "savefile_of path obj rn =
     exn_bind (sanitize obj) (\<lambda>o'. Inr (posix_join path (o' @ ''_'' @ rn @ ''_guidemovie.gif'')))"

text \<open>
  Saving the animation calls \<^verbatim>\<open>update\<close> once for each index of the padded list, in order,
  after the call \<^verbatim>\<open>update(0)\<close> of line 210; \<open>clock k\<close> is the time since \<^verbatim>\<open>time_in\<close> at the
  \<open>k\<close>-th of these calls. An exception of \<^verbatim>\<open>update\<close> passes through the animation.
\<close>

fun render_all :: "(rat \<Rightarrow> nat \<Rightarrow> exn + 'p) \<Rightarrow> (nat \<Rightarrow> rat) \<Rightarrow> nat list \<Rightarrow> exn + 'p list" where
  "render_all upd clock [] = Inr []"
| "render_all upd clock (n # ns) =
     exn_bind (upd (clock (n + 1)) n) (\<lambda>p.
     exn_bind (render_all upd clock ns) (\<lambda>ps. Inr (p # ps)))"

record 'dt movie =
  savefile :: string
  suptitle :: "string option"
  interval :: int
  plots :: "'dt plot list"

text \<open>
  Lines 66 to 219, \<^verbatim>\<open>make_gif\<close>. The intervals \<open>fr\<close> and \<open>init_fr\<close> are integers; a title
  that is \<open>None\<close> gives the fixed title of line 121 and an empty one no title.
\<close>

definition make_gif ::
  "'dt library \<Rightarrow> (string \<rightharpoonup> hdu list) \<Rightarrow> (nat \<Rightarrow> rat) \<Rightarrow> string list \<Rightarrow> string option \<Rightarrow> bool \<Rightarrow>
   int \<Rightarrow> int option \<Rightarrow> bool \<Rightarrow> bool \<Rightarrow> bool \<Rightarrow> exn + 'dt movie" where
  "make_gif lib store clock frames title sort_flag fr init_fr tr center progress =
     (case frames of
        [] \<Rightarrow> Inl IndexError
      | f0 # rest \<Rightarrow>
          let path = lstrip (CHR '' '') (posix_dirname f0) in
          exn_bind (pad_frames (if sort_flag then sort frames else frames) fr init_fr)
            (\<lambda>(fits_files, copies).
          exn_bind (if 0 < length fits_files then fits_open store (fits_files ! 0) else Inl IndexError)
            (\<lambda>hdul.
          exn_bind (exn_bind (select_hdu hdul) (\<lambda>h. first_header (header h))) (\<lambda>(obj, rn).
          let title = (case title of
                         None \<Rightarrow> Some ''LCOGT 1 meter Telescope at SAAO South Africa''
                       | Some t \<Rightarrow> if t = [] then None else Some t);
              upd = update lib store fits_files copies fr init_fr tr center progress in
          exn_bind (upd (clock 0) 0) (\<lambda>ax1.
          exn_bind (savefile_of path obj rn) (\<lambda>sf.
          exn_bind (render_all upd clock [0 ..< length fits_files]) (\<lambda>ps.
          Inr \<lparr>savefile = sf, suptitle = title, interval = fr, plots = ps\<rparr>)))))))"


text \<open>
  The pixel of an image at FITS pixel coordinates \<open>(x, y)\<close>, counted from 1. The first FITS
  axis (NAXIS1, to which CRPIX1 belongs) runs along a row, which is the second axis of the
  array that the FITS reader returns (shape \<open>(NAXIS2, NAXIS1)\<close>); the reticle of lines 201
  and 202 uses CRPIX1 as the horizontal coordinate in the same way.
\<close>

definition fits_pixel :: "image \<Rightarrow> int \<Rightarrow> int \<Rightarrow> int option" where
  "fits_pixel d x y =
     (if 1 \<le> y \<and> y \<le> int (length d)
      then (if 1 \<le> x \<and> x \<le> int (length (d ! nat (y - 1)))
            then Some (d ! nat (y - 1) ! nat (x - 1)) else None)
      else None)"

subsection \<open>A sample frame and sample library behaviour, for concrete evaluations\<close>

text \<open>
  A frame of 5 rows and 10 columns whose pixel in row \<open>r\<close> and column \<open>c\<close> (from 0) holds
  \<open>10 * r + c\<close>, with its reference pixel at FITS coordinates \<open>(6, 3)\<close>, that is row 2 and
  column 5 of the array, where the value is 25.
\<close>

definition sample_image :: image where
  "sample_image =
     [[ 0,  1,  2,  3,  4,  5,  6,  7,  8,  9],
      [10, 11, 12, 13, 14, 15, 16, 17, 18, 19],
      [20, 21, 22, 23, 24, 25, 26, 27, 28, 29],
      [30, 31, 32, 33, 34, 35, 36, 37, 38, 39],
      [40, 41, 42, 43, 44, 45, 46, 47, 48, 49]]"

definition sample_header :: header where
  "sample_header =
     [''OBJECT'' \<mapsto> Str ''M42'', ''REQNUM'' \<mapsto> Str ''0042'',
      ''DATE-OBS'' \<mapsto> Str ''2019-08-14T01:02:03.456'',
      ''CRPIX1'' \<mapsto> Num 6, ''CRPIX2'' \<mapsto> Num 3, ''PIXSCALE'' \<mapsto> Num (1 / 2)]"

definition sample_hdul :: "hdu list" where
  "sample_hdul = [\<lparr>name = ''PRIMARY'', header = sample_header, data = sample_image\<rparr>]"

text \<open>
  A stand-in for the libraries: a timestamp parser that accepts a string with a dot under
  the fractional format and a non-empty string without one under the plain format, fixed
  display limits, and a coordinate overlay that raises InvalidTransformError when the
  header has no \<open>CTYPE1\<close>.
\<close>

definition sample_library :: "string library" where
  "sample_library =
     \<lparr>strptime = (\<lambda>s fmt.
          if fmt = ''%Y-%m-%dT%H:%M:%S.%f'' then (if CHR ''.'' \<in> set s then Some s else None)
          else (if s \<noteq> [] \<and> CHR ''.'' \<notin> set s then Some s else None)),
      zscale = (\<lambda>d. Inr (0, 1)),
      wcs_axes = (\<lambda>h. if h ''CTYPE1'' = None then Some InvalidTransformError else None)\<rparr>"

definition sample_store :: "string \<rightharpoonup> hdu list" where
  "sample_store = (\<lambda>path. Some sample_hdul)"

definition sample_clock :: "nat \<Rightarrow> rat" where
  "sample_clock = (\<lambda>k. 3)"

text \<open>A frame whose header has no observation timestamp under either field name.\<close>

definition undated_hdul :: "hdu list" where
  "undated_hdul =
     [\<lparr>name = ''PRIMARY'', header = [''OBJECT'' \<mapsto> Str ''M42''], data = sample_image\<rparr>]"

section \<open>Properties of the padder\<close>

declare inner_loop.simps [simp del] outer_loop.simps [simp del]

lemma inner_loop_result:
  "c \<le> copies \<Longrightarrow> i < length fits_files \<Longrightarrow>
   inner_loop fits_files i c copies =
     Inr (take i fits_files @ replicate (nat (copies - c)) (fits_files ! i) @ drop i fits_files,
          i + nat (copies - c))"
proof (induction fits_files i c copies rule: inner_loop.induct)
  case (1 fits_files i c copies)
  show ?case
  proof (cases "c < copies")
    case False
    with "1.prems" have "c = copies" by simp
    then show ?thesis by (simp add: inner_loop.simps [of fits_files i])
  next
    case True
    let ?fs = "np_insert fits_files i (fits_files ! i)"
    have len: "i + 1 < length ?fs" using "1.prems" by (simp add: np_insert_def)
    have nth: "?fs ! (i + 1) = fits_files ! i"
      using "1.prems" by (simp add: np_insert_def nth_append Cons_nth_drop_Suc [symmetric])
    have tk: "take (i + 1) ?fs = take i fits_files @ [fits_files ! i]"
      using "1.prems" by (simp add: np_insert_def)
    have dr: "drop (i + 1) ?fs = drop i fits_files"
      using "1.prems" by (simp add: np_insert_def)
    have k: "nat (copies - c) = Suc (nat (copies - (c + 1)))" using True by simp
    have "inner_loop fits_files i c copies = inner_loop ?fs (i + 1) (c + 1) copies"
      using True "1.prems" by (simp add: inner_loop.simps [of fits_files i])
    also have "\<dots> = Inr (take (i + 1) ?fs @ replicate (nat (copies - (c + 1))) (?fs ! (i + 1)) @ drop (i + 1) ?fs,
          (i + 1) + nat (copies - (c + 1)))"
      using "1.IH" [OF True] "1.prems" True len by simp
    also have "\<dots> = Inr (take i fits_files @ replicate (nat (copies - c)) (fits_files ! i) @ drop i fits_files,
          i + nat (copies - c))"
      unfolding nth tk dr k by simp
    finally show ?thesis .
  qed
qed

lemma outer_loop_result:
  "1 \<le> copies \<Longrightarrow> g + d = start_frames \<Longrightarrow> length pre = nat copies * g \<Longrightarrow> d \<le> length rest \<Longrightarrow>
   outer_loop (pre @ rest) (length pre) copies =
     Inr (pre @ concat (map (replicate (nat copies)) (take d rest)) @ drop d rest)"
proof (induction d arbitrary: g pre rest)
  case 0
  then have "\<not> int (length pre) < int start_frames * copies"
    by (simp add: mult.commute)
  then show ?case by (simp add: outer_loop.simps [of "pre @ rest"])
next
  case (Suc d)
  from Suc.prems obtain r rest' where rest: "rest = r # rest'"
    by (cases rest) auto
  have lt: "int (length pre) < int start_frames * copies"
  proof -
    have "g < start_frames" using Suc.prems by simp
    then have "nat copies * g < nat copies * start_frames" using Suc.prems by simp
    then have "int (nat copies * g) < int (nat copies * start_frames)" by simp
    then show ?thesis using Suc.prems by (simp add: mult.commute)
  qed
  have inner: "inner_loop (pre @ rest) (length pre) 1 copies =
      Inr (pre @ replicate (nat (copies - 1)) r @ r # rest', length pre + nat (copies - 1))"
    using inner_loop_result [of 1 copies "length pre" "pre @ rest"] Suc.prems(1) rest by simp
  have rep: "replicate (nat (copies - 1)) r @ r # rest' = replicate (nat copies) r @ rest'"
  proof -
    have "nat copies = Suc (nat (copies - 1))" using Suc.prems by simp
    then show ?thesis by (simp add: replicate_append_same)
  qed
  have idx: "length pre + nat (copies - 1) + 1 = length (pre @ replicate (nat copies) r)"
    using Suc.prems by simp
  have len': "length (pre @ replicate (nat copies) r) = nat copies * (Suc g)"
    using Suc.prems by simp
  have lst: "pre @ replicate (nat (copies - 1)) r @ r # rest' = (pre @ replicate (nat copies) r) @ rest'"
    using rep by simp
  have "outer_loop (pre @ rest) (length pre) copies =
      outer_loop (pre @ replicate (nat (copies - 1)) r @ r # rest') (length pre + nat (copies - 1) + 1) copies"
    using lt inner by (simp add: outer_loop.simps [of "pre @ rest"])
  also have "\<dots> = outer_loop ((pre @ replicate (nat copies) r) @ rest')
      (length (pre @ replicate (nat copies) r)) copies"
    by (simp only: lst idx)
  also have "\<dots> = Inr ((pre @ replicate (nat copies) r) @
      concat (map (replicate (nat copies)) (take d rest')) @ drop d rest')"
    using Suc.IH [of "Suc g" "pre @ replicate (nat copies) r" rest'] Suc.prems rest len' by simp
  finally show ?case using rest by simp
qed

lemma outer_loop_pads:
  assumes "1 \<le> copies" "start_frames \<le> length fits_files"
  shows "outer_loop fits_files 0 copies =
     Inr (concat (map (replicate (nat copies)) (take start_frames fits_files)) @ drop start_frames fits_files)"
  using outer_loop_result [of copies 0 start_frames "[]" fits_files] assms by simp

lemma outer_loop_skips:
  "copies \<le> 0 \<Longrightarrow> outer_loop fits_files 0 copies = Inr fits_files"
  by (simp add: outer_loop.simps [of fits_files] start_frames_def)

text \<open>
  Claim C1, as amended. With intro interval 1000 and base interval 100 and a frame list of
  more than 5 frames, the padder returns \<open>copies = 10\<close> and a list made of 10 consecutive
  copies of each of the first 5 frames, in their order, followed by the remaining frames
  once each, in their order.
\<close>

theorem pad_frames_intro_ten:
  "5 < length fits_files \<Longrightarrow>
   pad_frames fits_files 100 (Some 1000) =
     Inr (concat (map (replicate 10) (take 5 fits_files)) @ drop 5 fits_files, 10)"
  using outer_loop_pads [of 10 fits_files] by (simp add: start_frames_def)

text \<open>The amended claim C1 at a list of seven frames.\<close>

theorem pad_frames_intro_ten_witness:
  "5 < length [''a'', ''b'', ''c'', ''d'', ''e'', ''f'', ''g''] \<and>
   pad_frames [''a'', ''b'', ''c'', ''d'', ''e'', ''f'', ''g''] 100 (Some 1000) =
     Inr (replicate 10 ''a'' @ replicate 10 ''b'' @ replicate 10 ''c'' @ replicate 10 ''d'' @
          replicate 10 ''e'' @ [''f'', ''g''], 10)"
  using pad_frames_intro_ten [of "[''a'', ''b'', ''c'', ''d'', ''e'', ''f'', ''g'']"] by simp

text \<open>
  Claim C1 as stated, for every list of length at least 5, fails at a list of exactly five
  frames: the guard of line 84 asks for more than \<open>start_frames\<close> frames, so the list is
  returned as it is and \<open>copies\<close> stays 1.
\<close>

theorem pad_frames_five_counterexample:
  "5 \<le> length [''a'', ''b'', ''c'', ''d'', ''e''] \<and>
   pad_frames [''a'', ''b'', ''c'', ''d'', ''e''] 100 (Some 1000) =
     Inr ([''a'', ''b'', ''c'', ''d'', ''e''], 1) \<and>
   pad_frames [''a'', ''b'', ''c'', ''d'', ''e''] 100 (Some 1000) \<noteq>
     Inr (concat (map (replicate 10) (take 5 [''a'', ''b'', ''c'', ''d'', ''e''])) @
          drop 5 [''a'', ''b'', ''c'', ''d'', ''e''], 10)"
  by (simp add: start_frames_def)

text \<open>
  Claim C2. When the intro interval is unset or falsy, or is at most the base interval, or
  the list has fewer than 5 frames, the padding step returns the frame list unchanged (and
  \<open>copies = 1\<close>).
\<close>

theorem pad_frames_noop:
  "falsy init_fr \<or> (\<exists>v. init_fr = Some v \<and> v \<le> fr) \<or> length fits_files < 5 \<Longrightarrow>
   pad_frames fits_files fr init_fr = Inr (fits_files, 1)"
  by (cases init_fr) (auto simp: falsy_def start_frames_def)

text \<open>
  Claim C2 at a list of six frames with the intro interval unset, zero, and equal to the
  base interval, and at a list of four frames with the default intervals.
\<close>

theorem pad_frames_noop_witness:
  "falsy None \<and> falsy (Some 0) \<and> (100::int) \<le> 100 \<and> length [''a'', ''b'', ''c'', ''d''] < 5 \<and>
   pad_frames [''a'', ''b'', ''c'', ''d'', ''e'', ''f''] 100 None =
     Inr ([''a'', ''b'', ''c'', ''d'', ''e'', ''f''], 1) \<and>
   pad_frames [''a'', ''b'', ''c'', ''d'', ''e'', ''f''] 100 (Some 0) =
     Inr ([''a'', ''b'', ''c'', ''d'', ''e'', ''f''], 1) \<and>
   pad_frames [''a'', ''b'', ''c'', ''d'', ''e'', ''f''] 100 (Some 100) =
     Inr ([''a'', ''b'', ''c'', ''d'', ''e'', ''f''], 1) \<and>
   pad_frames [''a'', ''b'', ''c'', ''d''] 100 (Some 1000) = Inr ([''a'', ''b'', ''c'', ''d''], 1)"
proof -
  let ?six = "[''a'', ''b'', ''c'', ''d'', ''e'', ''f'']"
  have f: "falsy None" "falsy (Some 0)" by (simp_all add: falsy_def)
  have l: "length [''a'', ''b'', ''c'', ''d''] < 5" by simp
  have "pad_frames ?six 100 None = Inr (?six, 1)"
    using pad_frames_noop [of None 100 ?six] f by blast
  moreover have "pad_frames ?six 100 (Some 0) = Inr (?six, 1)"
    using pad_frames_noop [of "Some 0" 100 ?six] f by blast
  moreover have "pad_frames ?six 100 (Some 100) = Inr (?six, 1)"
    using pad_frames_noop [of "Some 100" 100 ?six] by blast
  moreover have "pad_frames [''a'', ''b'', ''c'', ''d''] 100 (Some 1000) = Inr ([''a'', ''b'', ''c'', ''d''], 1)"
    using pad_frames_noop [of "Some 1000" 100 "[''a'', ''b'', ''c'', ''d'']"] l by blast
  ultimately show ?thesis using f l by simp
qed

section \<open>Properties of the progress reporter\<close>


text \<open>
  Claim C10. \<^verbatim>\<open>print_progress_bar\<close> is partial: a call with a start time and
  \<open>iteration = 0\<close> raises ZeroDivisionError (the extrapolation of line 50 divides by the
  iteration), and so does every call with \<open>total = 0\<close> (the percentage of line 43 divides
  by the total).
\<close>

theorem progress_bar_zero_division:
  "print_progress_bar 0 total' prefix suffix decimals bar_length fill (Some delta_t) = Inl ZeroDivisionError \<and>
   print_progress_bar iteration 0 prefix suffix decimals bar_length fill time_in = Inl ZeroDivisionError"
  by (simp add: print_progress_bar_def exn_bind_def)



section \<open>Properties of the title counter\<close>

declare digits_of.simps [simp del]



lemma exn_bind_Inr:
  "exn_bind m f = Inr y \<longleftrightarrow> (\<exists>x. m = Inr x \<and> f x = Inr y)"
  by (cases m) (simp_all add: exn_bind_def)

lemma exn_bind_Inl:
  "exn_bind m f = Inl e \<longleftrightarrow> m = Inl e \<or> (\<exists>x. m = Inr x \<and> f x = Inl e)"
  by (cases m) (simp_all add: exn_bind_def)







section \<open>Properties of the frame renderer\<close>

text \<open>
  Claim C5. The header and the data of a frame come from the first HDU named \<open>SCI\<close>;
  when there is none, from the first HDU named \<open>COMPRESSED_IMAGE\<close>; when there is none
  either, from the primary HDU (index 0); and the frame renderer takes both the header and
  the data from the HDU so chosen.
\<close>

theorem select_hdu_order:
  "(find (\<lambda>h. name h = ''SCI'') hdul = Some h \<longrightarrow> select_hdu hdul = Inr h) \<and>
   (find (\<lambda>h. name h = ''SCI'') hdul = None \<and>
    find (\<lambda>h. name h = ''COMPRESSED_IMAGE'') hdul = Some h \<longrightarrow> select_hdu hdul = Inr h) \<and>
   (find (\<lambda>h. name h = ''SCI'') hdul = None \<and>
    find (\<lambda>h. name h = ''COMPRESSED_IMAGE'') hdul = None \<and> hdul = h # rest
      \<longrightarrow> select_hdu hdul = Inr h) \<and>
   (store path = Some hdul \<and> select_hdu hdul = Inr h
      \<longrightarrow> frame_input store path False = Inr (header h, data h))"
  by (auto simp: select_hdu_def hdul_named_def hdul_index_def frame_input_def fits_open_def
      exn_bind_def)

text \<open>
  Claim C5 at three HDU lists: one with a \<open>SCI\<close> extension after the primary HDU, one with
  only a \<open>COMPRESSED_IMAGE\<close> extension after it, and one with the primary HDU alone.
\<close>

theorem select_hdu_order_witness:
  "select_hdu [\<lparr>name = ''PRIMARY'', header = Map.empty, data = []\<rparr>,
               \<lparr>name = ''COMPRESSED_IMAGE'', header = Map.empty, data = [[1]]\<rparr>,
               \<lparr>name = ''SCI'', header = Map.empty, data = [[2]]\<rparr>]
     = Inr \<lparr>name = ''SCI'', header = Map.empty, data = [[2]]\<rparr> \<and>
   select_hdu [\<lparr>name = ''PRIMARY'', header = Map.empty, data = []\<rparr>,
               \<lparr>name = ''COMPRESSED_IMAGE'', header = Map.empty, data = [[1]]\<rparr>]
     = Inr \<lparr>name = ''COMPRESSED_IMAGE'', header = Map.empty, data = [[1]]\<rparr> \<and>
   select_hdu sample_hdul
     = Inr \<lparr>name = ''PRIMARY'', header = sample_header, data = sample_image\<rparr> \<and>
   frame_input sample_store ''a.fits'' False = Inr (sample_header, sample_image)"
proof -
  let ?p = "\<lparr>name = ''PRIMARY'', header = Map.empty, data = []\<rparr>"
  let ?c = "\<lparr>name = ''COMPRESSED_IMAGE'', header = Map.empty, data = [[1]]\<rparr>"
  let ?s = "\<lparr>name = ''SCI'', header = Map.empty, data = [[2]]\<rparr>"
  let ?q = "\<lparr>name = ''PRIMARY'', header = sample_header, data = sample_image\<rparr>"
  have a: "select_hdu [?p, ?c, ?s] = Inr ?s"
    using select_hdu_order [of "[?p, ?c, ?s]" ?s] by simp
  have b: "select_hdu [?p, ?c] = Inr ?c"
    using select_hdu_order [of "[?p, ?c]" ?c] by simp
  have c: "select_hdu sample_hdul = Inr ?q"
    using select_hdu_order [of sample_hdul ?q "[]"] by (simp add: sample_hdul_def)
  have d: "frame_input sample_store ''a.fits'' False = Inr (sample_header, sample_image)"
    using select_hdu_order [of sample_hdul ?q "[]" sample_store "''a.fits''"] c
    by (simp add: sample_store_def)
  from a b c d show ?thesis by simp
qed

text \<open>
  What the crop does in general: the rows are cut by the offset computed from the number of
  rows and the columns by the offset computed from the number of columns, while CRPIX1 is
  lowered by the offset of the rows and CRPIX2 by that of the columns.
\<close>

lemma center_crop_shifts:
  assumes "header_n ''CRPIX1'' = Some (Num a)" and "header_n ''CRPIX2'' = Some (Num b)"
  shows "center_crop header_n d =
     Inr (header_n(''CRPIX1'' \<mapsto> Num (a - of_nat (int_div_2_5 (length d))),
                   ''CRPIX2'' \<mapsto> Num (b - of_nat (int_div_2_5 (snd (shape d))))),
          map (slice_both (int_div_2_5 (snd (shape d)))) (slice_both (int_div_2_5 (length d)) d))"
  using assms
  by (simp add: center_crop_def Let_def shape_def exn_bind_def header_get_def num_sub_def)

text \<open>
  Claim C4 at an image that is not square, the sample frame of 5 rows and 10 columns. The
  crop cuts \<open>int(5/2.5) = 2\<close> rows and \<open>int(10/2.5) = 4\<close> columns from each edge and keeps
  the pixels 24 and 25. The reference pixel \<open>(6, 3)\<close>, the pixel 25, lies at \<open>(2, 1)\<close> in the
  cropped image, CRPIX1 less the 4 columns and CRPIX2 less the 2 rows; the code subtracts
  the 2 rows from CRPIX1 and the 4 columns from CRPIX2 and leaves \<open>(4, -1)\<close>, which is no
  pixel of the cropped image.
\<close>

theorem center_crop_nonsquare_shift:
  "map_sum id (\<lambda>(h, d). (h ''CRPIX1'', h ''CRPIX2'', d)) (center_crop sample_header sample_image)
     = Inr (Some (Num 4), Some (Num (- 1)), [[24, 25]]) \<and>
   fits_pixel sample_image 6 3 = Some 25 \<and>
   fits_pixel [[24, 25]] (6 - int (int_div_2_5 10)) (3 - int (int_div_2_5 5)) = Some 25 \<and>
   fits_pixel [[24, 25]] 4 (- 1) = None"
  by (simp add: center_crop_def sample_header_def sample_image_def shape_def int_div_2_5_def
      slice_both_def exn_bind_def header_get_def num_sub_def fits_pixel_def)

section \<open>The run as a whole\<close>

lemma pad_frames_shape:
  assumes "pad_frames fits_files fr init_fr = Inr (padded, copies)"
  shows "padded = fits_files \<or>
         (\<exists>k. 1 \<le> k \<and> start_frames < length fits_files \<and>
              padded = concat (map (replicate k) (take start_frames fits_files)) @
                       drop start_frames fits_files)"
proof (cases init_fr)
  case None
  with assms show ?thesis by simp
next
  case (Some v)
  show ?thesis
  proof (cases "pad_guard (Some v) fr (length fits_files)")
    case False
    with Some assms show ?thesis by (simp del: pad_guard.simps)
  next
    case True
    then have len: "start_frames < length fits_files" by simp
    from True Some assms have nz: "fr \<noteq> 0"
      by (auto simp del: pad_guard.simps)
    with True Some assms have ol: "outer_loop fits_files 0 (v div fr) = Inr padded"
      by (auto simp del: pad_guard.simps split: sum.splits)
    show ?thesis
    proof (cases "1 \<le> v div fr")
      case True
      with outer_loop_pads [of "v div fr" fits_files] len ol
      have "padded = concat (map (replicate (nat (v div fr))) (take start_frames fits_files)) @
                     drop start_frames fits_files" by simp
      moreover from True have "1 \<le> nat (v div fr)" by simp
      ultimately show ?thesis using len by blast
    next
      case False
      then have "v div fr \<le> 0" by simp
      with outer_loop_skips [of "v div fr" fits_files] ol show ?thesis by simp
    qed
  qed
qed

lemma set_concat_replicate:
  "1 \<le> k \<Longrightarrow> set (concat (map (replicate k) xs)) = set xs"
  by (induction xs) auto

lemma pad_frames_set:
  assumes "pad_frames fits_files fr init_fr = Inr (padded, copies)"
  shows "set padded = set fits_files"
proof -
  from pad_frames_shape [OF assms] show ?thesis
  proof
    assume "padded = fits_files"
    then show ?thesis by simp
  next
    assume "\<exists>k. 1 \<le> k \<and> start_frames < length fits_files \<and>
              padded = concat (map (replicate k) (take start_frames fits_files)) @
                       drop start_frames fits_files"
    then obtain k where k: "1 \<le> k"
      and p: "padded = concat (map (replicate k) (take start_frames fits_files)) @
                       drop start_frames fits_files" by blast
    have "set padded = set (take start_frames fits_files) \<union> set (drop start_frames fits_files)"
      unfolding p using k by (simp add: set_concat_replicate)
    also have "\<dots> = set (take start_frames fits_files @ drop start_frames fits_files)"
      by (simp only: set_append)
    also have "\<dots> = set fits_files"
      by (simp only: append_take_drop_id)
    finally show ?thesis .
  qed
qed

lemma pad_frames_first:
  assumes "pad_frames fits_files fr init_fr = Inr (padded, copies)" and "fits_files = f # fs"
  shows "\<exists>ps. padded = f # ps"
proof -
  from pad_frames_shape [OF assms(1)] show ?thesis
  proof
    assume "padded = fits_files"
    with assms(2) show ?thesis by simp
  next
    assume "\<exists>k. 1 \<le> k \<and> start_frames < length fits_files \<and>
              padded = concat (map (replicate k) (take start_frames fits_files)) @
                       drop start_frames fits_files"
    then obtain k where k: "1 \<le> k"
      and p: "padded = concat (map (replicate k) (take start_frames fits_files)) @
                       drop start_frames fits_files" by blast
    from k obtain k' where k': "k = Suc k'" by (cases k) simp_all
    show ?thesis unfolding p assms(2) k' by (simp add: start_frames_def)
  qed
qed

lemma render_all_error:
  assumes "n \<in> set ns" and "\<And>delta_t. \<exists>e. upd delta_t n = Inl e"
  shows "\<exists>e. render_all upd clock ns = Inl e"
  using assms(1)
proof (induction ns)
  case Nil
  then show ?case by simp
next
  case (Cons a ns)
  show ?case
  proof (cases "upd (clock (a + 1)) a")
    case (Inl e)
    then show ?thesis by (simp add: exn_bind_def)
  next
    case (Inr p)
    with assms(2) [of "clock (a + 1)"] have "a \<noteq> n" by auto
    with Cons.prems have "n \<in> set ns" by simp
    from Cons.IH [OF this] obtain e where "render_all upd clock ns = Inl e" by blast
    with Inr show ?thesis by (simp add: exn_bind_def)
  qed
qed

lemma center_crop_keeps_key:
  assumes "center_crop header_n d = Inr (h', d')" and "k \<noteq> ''CRPIX1''" and "k \<noteq> ''CRPIX2''"
  shows "h' k = header_n k"
  using assms by (auto simp: center_crop_def Let_def exn_bind_Inr)

lemma observation_date_cong:
  assumes "h' ''DATE-OBS'' = h ''DATE-OBS''" and "h' ''DATE_OBS'' = h ''DATE_OBS''"
  shows "observation_date strp h' = observation_date strp h"
  using assms by (simp add: observation_date_def date_obs_of_def header_get_def)

lemma update_needs_date:
  assumes "store (fits_files ! n) = Some hdul" and "select_hdu hdul = Inr h"
    and "observation_date (strptime lib) (header h) = Inl e"
  shows "\<exists>e'. update lib store fits_files copies fr init_fr tr center progress delta_t n = Inl e'"
proof (cases "n < length fits_files")
  case False
  then show ?thesis by (simp add: update_def)
next
  case True
  show ?thesis
  proof (cases "frame_input store (fits_files ! n) center")
    case (Inl e')
    with True show ?thesis by (simp add: update_def exn_bind_def)
  next
    case (Inr hd')
    obtain header_n d where hd': "hd' = (header_n, d)" by (cases hd')
    have "observation_date (strptime lib) header_n = observation_date (strptime lib) (header h)"
    proof (cases center)
      case False
      with Inr hd' assms(1,2) show ?thesis
        by (simp add: frame_input_def fits_open_def exn_bind_def)
    next
      case True
      with Inr hd' assms(1,2) have "center_crop (header h) (data h) = Inr (header_n, d)"
        by (simp add: frame_input_def fits_open_def exn_bind_def)
      then show ?thesis
        by (intro observation_date_cong center_crop_keeps_key) simp_all
    qed
    with assms(3) have "observation_date (strptime lib) header_n = Inl e" by simp
    with True Inr hd' show ?thesis by (simp add: update_def exn_bind_def)
  qed
qed

lemma make_gif_needs_dates:
  assumes "f \<in> set frames" and "store f = Some hdul" and "select_hdu hdul = Inr h"
    and "observation_date (strptime lib) (header h) = Inl e"
  shows "\<exists>e'. make_gif lib store clock frames title sort_flag fr init_fr tr center progress = Inl e'"
proof (rule ccontr)
  assume "\<not> ?thesis"
  then obtain m where m: "make_gif lib store clock frames title sort_flag fr init_fr tr center progress = Inr m"
    by (cases "make_gif lib store clock frames title sort_flag fr init_fr tr center progress") auto
  let ?ff = "if sort_flag then sort frames else frames"
  from m obtain padded copies where
    pad: "pad_frames ?ff fr init_fr = Inr (padded, copies)" and
    ra: "\<exists>ps. render_all (update lib store padded copies fr init_fr tr center progress) clock
            [0 ..< length padded] = Inr ps"
    unfolding make_gif_def Let_def
    by (auto simp: exn_bind_Inr split: list.splits)
  from pad_frames_set [OF pad] assms(1) have "f \<in> set padded" by auto
  then obtain n where n: "n < length padded" "padded ! n = f"
    by (auto simp: in_set_conv_nth)
  then have "n \<in> set [0 ..< length padded]" by simp
  moreover have "\<And>delta_t. \<exists>e'. update lib store padded copies fr init_fr tr center progress delta_t n = Inl e'"
    using update_needs_date [of store padded n hdul h lib e] assms(2,3,4) n by simp
  ultimately have "\<exists>e'. render_all (update lib store padded copies fr init_fr tr center progress) clock
            [0 ..< length padded] = Inl e'"
    by (rule render_all_error)
  with ra show False by auto
qed

text \<open>
  Claim C6. The timestamp is read from \<open>DATE-OBS\<close> and, when that field is missing, from
  \<open>DATE_OBS\<close>, and a header with neither raises KeyError; the string is parsed with the
  format with fractional seconds and, when that raises ValueError, with the format
  without, and a string that neither format parses raises ValueError; and a run in whose
  frame list one frame has a header from which no timestamp is obtained ends with an
  exception instead of a movie.
\<close>

theorem timestamp_or_abort:
  "date_obs_of header_n =
     (case header_n ''DATE-OBS'' of
        Some v \<Rightarrow> Inr v
      | None \<Rightarrow> (case header_n ''DATE_OBS'' of Some v \<Rightarrow> Inr v | None \<Rightarrow> Inl KeyError)) \<and>
   parse_date strp (Str s) =
     (case strp s ''%Y-%m-%dT%H:%M:%S.%f'' of
        Some t \<Rightarrow> Inr t
      | None \<Rightarrow> (case strp s ''%Y-%m-%dT%H:%M:%S'' of Some t \<Rightarrow> Inr t | None \<Rightarrow> Inl ValueError)) \<and>
   observation_date strp header_n = exn_bind (date_obs_of header_n) (parse_date strp) \<and>
   (store (fits_files ! n) = Some hdul \<and> select_hdu hdul = Inr h \<and>
    observation_date (strptime lib) (header h) = Inl e
      \<longrightarrow> (\<exists>e'. update lib store fits_files copies fr init_fr tr center progress delta_t n = Inl e')) \<and>
   (f \<in> set frames \<and> store f = Some hdul \<and> select_hdu hdul = Inr h \<and>
    observation_date (strptime lib) (header h) = Inl e
      \<longrightarrow> (\<exists>e'. make_gif lib store clock frames title sort_flag fr init_fr tr center progress = Inl e'))"
proof (intro conjI impI)
  assume "store (fits_files ! n) = Some hdul \<and> select_hdu hdul = Inr h \<and>
    observation_date (strptime lib) (header h) = Inl e"
  then show "\<exists>e'. update lib store fits_files copies fr init_fr tr center progress delta_t n = Inl e'"
    using update_needs_date [of store fits_files n hdul h lib e] by blast
next
  show "date_obs_of header_n =
     (case header_n ''DATE-OBS'' of
        Some v \<Rightarrow> Inr v
      | None \<Rightarrow> (case header_n ''DATE_OBS'' of Some v \<Rightarrow> Inr v | None \<Rightarrow> Inl KeyError))"
    by (simp add: date_obs_of_def header_get_def split: option.splits)
  show "parse_date strp (Str s) =
     (case strp s ''%Y-%m-%dT%H:%M:%S.%f'' of
        Some t \<Rightarrow> Inr t
      | None \<Rightarrow> (case strp s ''%Y-%m-%dT%H:%M:%S'' of Some t \<Rightarrow> Inr t | None \<Rightarrow> Inl ValueError))"
    by (simp add: parse_date_def py_strptime_def split: option.splits)
  show "observation_date strp header_n = exn_bind (date_obs_of header_n) (parse_date strp)"
    by (simp add: observation_date_def)
next
  assume "f \<in> set frames \<and> store f = Some hdul \<and> select_hdu hdul = Inr h \<and>
    observation_date (strptime lib) (header h) = Inl e"
  then show "\<exists>e'. make_gif lib store clock frames title sort_flag fr init_fr tr center progress = Inl e'"
    using make_gif_needs_dates [of f frames store hdul h lib e] by blast
qed

text \<open>
  Claim C6 at a list of two frames of which the second has no timestamp field: the run
  ends with an exception.
\<close>

theorem timestamp_or_abort_witness:
  "''b.fits'' \<in> set [''a.fits'', ''b.fits''] \<and>
   (sample_store(''b.fits'' \<mapsto> undated_hdul)) ''b.fits'' = Some undated_hdul \<and>
   select_hdu undated_hdul = Inr (hd undated_hdul) \<and>
   observation_date (strptime sample_library) (header (hd undated_hdul)) = Inl KeyError \<and>
   (sample_store(''b.fits'' \<mapsto> undated_hdul)) ([''a.fits'', ''b.fits''] ! 1) = Some undated_hdul \<and>
   (\<exists>e'. update sample_library (sample_store(''b.fits'' \<mapsto> undated_hdul))
            [''a.fits'', ''b.fits''] 1 100 (Some 1000) False False True 3 1 = Inl e') \<and>
   (\<exists>e'. make_gif sample_library (sample_store(''b.fits'' \<mapsto> undated_hdul)) sample_clock
            [''a.fits'', ''b.fits''] None True 100 (Some 1000) False False True = Inl e')"
proof -
  note inst = timestamp_or_abort [of _ _ _ "sample_store(''b.fits'' \<mapsto> undated_hdul)"
      "[''a.fits'', ''b.fits'']" 1 undated_hdul "hd undated_hdul" sample_library KeyError
      1 100 "Some 1000" False False True 3 "''b.fits''" "[''a.fits'', ''b.fits'']"
      sample_clock None True]
  have b': "(sample_store(''b.fits'' \<mapsto> undated_hdul)) ([''a.fits'', ''b.fits''] ! 1) = Some undated_hdul"
    by simp
  have a: "''b.fits'' \<in> set [''a.fits'', ''b.fits'']" by simp
  have b: "(sample_store(''b.fits'' \<mapsto> undated_hdul)) ''b.fits'' = Some undated_hdul" by simp
  have c: "select_hdu undated_hdul = Inr (hd undated_hdul)"
    by (simp add: undated_hdul_def select_hdu_def hdul_named_def hdul_index_def)
  have d: "observation_date (strptime sample_library) (header (hd undated_hdul)) = Inl KeyError"
    by (simp add: undated_hdul_def observation_date_def date_obs_of_def header_get_def exn_bind_def)
  from inst a b c d
  have run: "\<exists>e'. make_gif sample_library (sample_store(''b.fits'' \<mapsto> undated_hdul)) sample_clock
            [''a.fits'', ''b.fits''] None True 100 (Some 1000) False False True = Inl e'"
    by blast
  from inst b' c d
  have step: "\<exists>e'. update sample_library (sample_store(''b.fits'' \<mapsto> undated_hdul))
            [''a.fits'', ''b.fits''] 1 100 (Some 1000) False False True 3 1 = Inl e'"
    by blast
  from a b b' c d run step show ?thesis by blast
qed








section \<open>The output path\<close>

lemma first_header_result:
  assumes "first_header hh = Inr (objc, rn)"
  shows "hh ''OBJECT'' = Some objc \<and>
         (hh ''REQNUM'' = None \<and> rn = ''UNKNOWN'' \<or>
          (\<exists>r. hh ''REQNUM'' = Some (Str r) \<and> rn = lstrip (CHR ''0'') r))"
proof -
  from assms obtain rn' where
    o: "header_get hh ''OBJECT'' = Inr objc" and
    r: "except_KeyError (exn_bind (header_get hh ''REQNUM'') (str_lstrip (CHR ''0''))) (Inr ''UNKNOWN'')
          = Inr rn'" and
    e: "rn' = rn"
    unfolding first_header_def by (auto simp: exn_bind_Inr)
  from o have "hh ''OBJECT'' = Some objc"
    by (simp add: header_get_def split: option.splits)
  moreover have "hh ''REQNUM'' = None \<and> rn = ''UNKNOWN'' \<or>
          (\<exists>r. hh ''REQNUM'' = Some (Str r) \<and> rn = lstrip (CHR ''0'') r)"
  proof (cases "hh ''REQNUM''")
    case None
    with r e show ?thesis by (simp add: header_get_def exn_bind_def)
  next
    case (Some v)
    with r e show ?thesis
      by (cases v) (simp_all add: header_get_def exn_bind_def str_lstrip_def)
  qed
  ultimately show ?thesis by simp
qed

lemma sanitize_result:
  "sanitize objc = Inr s \<Longrightarrow>
   \<exists>obj. objc = Str obj \<and> s = map (\<lambda>c. if c = CHR '' '' \<or> c = CHR ''/'' then CHR ''_'' else c) obj"
  by (cases objc) (auto simp: sanitize_def replace_char_def)

lemma lstrip_zeros:
  "(\<exists>k. r = replicate k (CHR ''0'') @ lstrip (CHR ''0'') r) \<and>
   (lstrip (CHR ''0'') r = [] \<or> hd (lstrip (CHR ''0'') r) \<noteq> CHR ''0'')"
proof
  have "r = takeWhile (\<lambda>c. c = CHR ''0'') r @ lstrip (CHR ''0'') r"
    by (simp add: lstrip_def)
  moreover have "takeWhile (\<lambda>c. c = CHR ''0'') r =
      replicate (length (takeWhile (\<lambda>c. c = CHR ''0'') r)) (CHR ''0'')"
    by (induction r) simp_all
  ultimately show "\<exists>k. r = replicate k (CHR ''0'') @ lstrip (CHR ''0'') r" by metis
next
  show "lstrip (CHR ''0'') r = [] \<or> hd (lstrip (CHR ''0'') r) \<noteq> CHR ''0''"
    unfolding lstrip_def using hd_dropWhile [of "\<lambda>c. c = CHR ''0''" r] by blast
qed

text \<open>
  Claim C8, as amended. A run that returns has opened the first file of the (sorted) frame
  list, taken the header of its \<open>SCI\<close>, \<open>COMPRESSED_IMAGE\<close> or primary HDU, and returns the
  path made of the directory of \<open>frames[0]\<close> with its leading spaces stripped, joined with
  the object name in which every space and slash is an underscore, an underscore, the
  request number without its leading zeros or \<open>UNKNOWN\<close> when the header has no \<open>REQNUM\<close>,
  and \<open>_guidemovie.gif\<close>.
\<close>

theorem savefile_path:
  assumes "make_gif lib store clock frames title sort_flag fr init_fr tr center progress = Inr m"
  shows "\<exists>f0 rest first more hdul h obj rn.
           frames = f0 # rest \<and> (if sort_flag then sort frames else frames) = first # more \<and>
           store first = Some hdul \<and> select_hdu hdul = Inr h \<and>
           header h ''OBJECT'' = Some (Str obj) \<and>
           (header h ''REQNUM'' = None \<and> rn = ''UNKNOWN'' \<or>
            (\<exists>r. header h ''REQNUM'' = Some (Str r) \<and> rn = lstrip (CHR ''0'') r)) \<and>
           savefile m =
             posix_join (lstrip (CHR '' '') (posix_dirname f0))
               (map (\<lambda>c. if c = CHR '' '' \<or> c = CHR ''/'' then CHR ''_'' else c) obj @
                ''_'' @ rn @ ''_guidemovie.gif'')"
proof -
  let ?ff = "if sort_flag then sort frames else frames"
  from assms obtain f0 rest where fr: "frames = f0 # rest"
    by (cases frames) (simp_all add: make_gif_def)
  from assms fr obtain padded copies hdul h objc rn sf where
    pad: "pad_frames ?ff fr init_fr = Inr (padded, copies)" and
    op: "(if 0 < length padded then fits_open store (padded ! 0) else Inl IndexError) = Inr hdul" and
    sel: "select_hdu hdul = Inr h" and
    fh: "first_header (header h) = Inr (objc, rn)" and
    sf: "savefile_of (lstrip (CHR '' '') (posix_dirname f0)) objc rn = Inr sf" and
    m: "savefile m = sf"
    unfolding make_gif_def Let_def
    by (auto simp: exn_bind_Inr)
  have "?ff \<noteq> []"
  proof
    assume "?ff = []"
    then have "length ?ff = 0" by simp
    with fr show False by (simp split: if_splits)
  qed
  then obtain first more where ff: "?ff = first # more" by (cases ?ff) auto
  from pad_frames_first [OF pad ff] obtain ps where ps: "padded = first # ps" by blast
  with op have st: "store first = Some hdul"
    by (simp add: fits_open_def split: option.splits)
  from first_header_result [OF fh] have
    o: "header h ''OBJECT'' = Some objc" and
    r: "header h ''REQNUM'' = None \<and> rn = ''UNKNOWN'' \<or>
        (\<exists>r. header h ''REQNUM'' = Some (Str r) \<and> rn = lstrip (CHR ''0'') r)"
    by simp_all
  from sf obtain s where s: "sanitize objc = Inr s"
    and sf': "sf = posix_join (lstrip (CHR '' '') (posix_dirname f0)) (s @ ''_'' @ rn @ ''_guidemovie.gif'')"
    by (auto simp: savefile_of_def exn_bind_Inr)
  from sanitize_result [OF s] obtain obj where obj: "objc = Str obj"
    and s': "s = map (\<lambda>c. if c = CHR '' '' \<or> c = CHR ''/'' then CHR ''_'' else c) obj" by blast
  from fr ff st sel o obj r m sf' s' show ?thesis by blast
qed

lemma sample_run:
  "map_sum id savefile
     (make_gif sample_library sample_store sample_clock
        [''/tmp/seq/f1.fits'', ''/tmp/seq/f2.fits'', ''/tmp/seq/f3.fits'', ''/tmp/seq/f4.fits'',
         ''/tmp/seq/f5.fits''] None True 100 (Some 1000) False False True)
   = Inr ''/tmp/seq/M42_42_guidemovie.gif''"
  by code_simp

text \<open>
  The amended claim C8 at five frames in \<open>/tmp/seq\<close> with object \<open>M42\<close> and request number
  \<open>0042\<close>: the run returns \<open>/tmp/seq/M42_42_guidemovie.gif\<close>.
\<close>

theorem savefile_path_witness:
  "\<exists>m. make_gif sample_library sample_store sample_clock
         [''/tmp/seq/f1.fits'', ''/tmp/seq/f2.fits'', ''/tmp/seq/f3.fits'', ''/tmp/seq/f4.fits'',
          ''/tmp/seq/f5.fits''] None True 100 (Some 1000) False False True = Inr m \<and>
       (\<exists>obj rn. savefile m =
          posix_join (lstrip (CHR '' '') (posix_dirname ''/tmp/seq/f1.fits''))
            (map (\<lambda>c. if c = CHR '' '' \<or> c = CHR ''/'' then CHR ''_'' else c) obj @
             ''_'' @ rn @ ''_guidemovie.gif'')) \<and>
       savefile m = ''/tmp/seq/M42_42_guidemovie.gif''"
proof -
  let ?run = "make_gif sample_library sample_store sample_clock
         [''/tmp/seq/f1.fits'', ''/tmp/seq/f2.fits'', ''/tmp/seq/f3.fits'', ''/tmp/seq/f4.fits'',
          ''/tmp/seq/f5.fits''] None True 100 (Some 1000) False False True"
  from sample_run obtain m where m: "?run = Inr m" and s: "savefile m = ''/tmp/seq/M42_42_guidemovie.gif''"
    by (cases ?run) simp_all
  from savefile_path [OF m]
  have "\<exists>obj rn. savefile m =
          posix_join (lstrip (CHR '' '') (posix_dirname ''/tmp/seq/f1.fits''))
            (map (\<lambda>c. if c = CHR '' '' \<or> c = CHR ''/'' then CHR ''_'' else c) obj @
             ''_'' @ rn @ ''_guidemovie.gif'')"
    by auto
  with m s show ?thesis by blast
qed

text \<open>
  Claim C8 as stated, the directory of the first input frame joined with the file name,
  fails at a frame whose directory name begins with a space: line 80 strips the leading
  spaces of the directory, and the movie is written to the directory \<open>d\<close>, which is not the directory of the
  frame.
\<close>

theorem savefile_directory_counterexample:
  "map_sum id savefile
     (make_gif sample_library sample_store sample_clock ['' d/a.fits''] None True 100 (Some 1000)
        False False False)
     = Inr ''d/M42_42_guidemovie.gif'' \<and>
   posix_join (posix_dirname '' d/a.fits'') ''M42_42_guidemovie.gif'' = '' d/M42_42_guidemovie.gif'' \<and>
   ''d/M42_42_guidemovie.gif'' \<noteq> '' d/M42_42_guidemovie.gif''"
  by code_simp

end
